theory Spec2Isabelle
  imports Complex_Main "HOL-Library.Sublist"
begin

section \<open>Strings\<close>

text \<open>
  A string is a list of code units. The code units are those of Latin-1
  (U+0000 to U+00FF, \<open>Latin1 c\<close> for the \<open>char\<close> of that number) together with
  U+039C (Greek capital mu), U+03BC (Greek small mu) and U+0178 (capital Y with
  diaeresis): the smallest set that holds Latin-1 and is closed under \<open>toUpperCase\<close>
  and \<open>toLowerCase\<close>. On these code units the case mappings are the ones of
  Unicode that JavaScript applies: \<open>toUpperCase\<close> maps U+00DF (sharp s) to the
  two code units \<open>SS\<close>, U+00B5 (micro sign) to U+039C and U+00FF to U+0178. The
  class \<open>\w\<close> of a regular expression without flags is \<open>[A-Za-z0-9_]\<close>; the class
  \<open>\s\<close>, which is also what \<open>trim\<close> strips, holds tab, line feed, vertical tab,
  form feed, carriage return, space and U+00A0 (no-break space). Text with other
  code units is outside this development.
\<close>

datatype jschar = Latin1 char | CapitalMu | SmallMu | CapitalYDiaeresis

type_synonym jsstring = "jschar list"

text \<open>A string literal of ASCII characters as a string of code units.\<close>

definition js :: "string \<Rightarrow> jsstring" where
  "js s = map Latin1 s"

definition isWordChar :: "jschar \<Rightarrow> bool" where
  "isWordChar c =
     (case c of
        Latin1 a \<Rightarrow>
          (let n = (of_char a :: nat) in
             (97 \<le> n \<and> n \<le> 122) \<or> (65 \<le> n \<and> n \<le> 90) \<or> (48 \<le> n \<and> n \<le> 57) \<or> n = 95)
      | _ \<Rightarrow> False)"

definition isSpaceChar :: "jschar \<Rightarrow> bool" where
  "isSpaceChar c =
     (case c of
        Latin1 a \<Rightarrow> (let n = (of_char a :: nat) in (9 \<le> n \<and> n \<le> 13) \<or> n = 32 \<or> n = 160)
      | _ \<Rightarrow> False)"

text \<open>
  The upper-case mapping of one code unit; only U+00DF gives two. U+00F7
  (division sign) and U+00D7 (multiplication sign) have no case.
\<close>

definition toUpperChar :: "jschar \<Rightarrow> jsstring" where
  "toUpperChar c =
     (case c of
        Latin1 a \<Rightarrow>
          (let n = (of_char a :: nat) in
             if 97 \<le> n \<and> n \<le> 122 then [Latin1 (char_of (n - 32))]
             else if n = 181 then [CapitalMu]
             else if n = 223 then [Latin1 (CHR ''S''), Latin1 (CHR ''S'')]
             else if 224 \<le> n \<and> n \<le> 254 \<and> n \<noteq> 247 then [Latin1 (char_of (n - 32))]
             else if n = 255 then [CapitalYDiaeresis]
             else [c])
      | CapitalMu \<Rightarrow> [CapitalMu]
      | SmallMu \<Rightarrow> [CapitalMu]
      | CapitalYDiaeresis \<Rightarrow> [CapitalYDiaeresis])"

definition toLowerChar :: "jschar \<Rightarrow> jschar" where
  "toLowerChar c =
     (case c of
        Latin1 a \<Rightarrow>
          (let n = (of_char a :: nat) in
             if 65 \<le> n \<and> n \<le> 90 then Latin1 (char_of (n + 32))
             else if 192 \<le> n \<and> n \<le> 222 \<and> n \<noteq> 215 then Latin1 (char_of (n + 32))
             else c)
      | CapitalMu \<Rightarrow> SmallMu
      | SmallMu \<Rightarrow> SmallMu
      | CapitalYDiaeresis \<Rightarrow> Latin1 (CHR 0xFF))"

definition toUpperCase :: "jsstring \<Rightarrow> jsstring" where
  "toUpperCase s = concat (map toUpperChar s)"

definition toLowerCase :: "jsstring \<Rightarrow> jsstring" where
  "toLowerCase s = map toLowerChar s"

text \<open>\<open>s.startsWith(w)\<close>.\<close>

definition startsWith :: "jsstring \<Rightarrow> jsstring \<Rightarrow> bool" where
  "startsWith s w = (take (length w) s = w)"

text \<open>
  \<open>q.substring(0, p)\<close>: a negative end is taken as 0 and an end beyond the length
  as the length.
\<close>

definition substring0 :: "jsstring \<Rightarrow> int \<Rightarrow> jsstring" where
  "substring0 q p = take (nat p) q"

text \<open>
  \<open>s.lastIndexOf(k)\<close> for a non-empty \<open>k\<close>: the candidate positions are tried
  from the right, and \<open>-1\<close> is returned when none matches.
\<close>

fun lastIndexFrom :: "jsstring \<Rightarrow> jsstring \<Rightarrow> nat \<Rightarrow> int" where
  "lastIndexFrom s k 0 = (if take (length k) s = k then 0 else -1)"
| "lastIndexFrom s k (Suc i) =
     (if take (length k) (drop (Suc i) s) = k then int (Suc i) else lastIndexFrom s k i)"

definition lastIndexOf :: "jsstring \<Rightarrow> jsstring \<Rightarrow> int" where
  "lastIndexOf s k = lastIndexFrom s k (length s)"

text \<open>
  \<open>s.match(/(\w+)$/)\<close>: the leftmost start from which a non-empty run of word
  characters reaches the end of the text; the result is capture group 1.
\<close>

fun matchWordAtEnd :: "jsstring \<Rightarrow> jsstring option" where
  "matchWordAtEnd [] = None"
| "matchWordAtEnd (c # cs) =
     (if list_all isWordChar (c # cs) then Some (c # cs) else matchWordAtEnd cs)"

text \<open>
  \<open>s.match(/K\s+(\w+)/)\<close> for a literal keyword \<open>K\<close>. At one start position:
  the keyword, then the greedy run of white space, then the greedy run of word
  characters, both non-empty (the two classes are disjoint, so giving back white
  space never helps). The search takes the leftmost start that matches; the result is
  capture group 1.
\<close>

definition matchKeywordWordHere :: "jsstring \<Rightarrow> jsstring \<Rightarrow> jsstring option" where
  "matchKeywordWordHere k s =
     (if startsWith s k then
        (let r = drop (length k) s;
             ws = takeWhile isSpaceChar r;
             w = takeWhile isWordChar (dropWhile isSpaceChar r)
         in if ws \<noteq> [] \<and> w \<noteq> [] then Some w else None)
      else None)"

fun matchKeywordWord :: "jsstring \<Rightarrow> jsstring \<Rightarrow> jsstring option" where
  "matchKeywordWord k [] = matchKeywordWordHere k []"
| "matchKeywordWord k (c # cs) =
     (case matchKeywordWordHere k (c # cs) of
        Some w \<Rightarrow> Some w
      | None \<Rightarrow> matchKeywordWord k cs)"

section \<open>Schema snapshot and suggestions\<close>

text \<open>
  \<open>ColumnInfo\<close>, \<open>TableInfo\<close> and \<open>DatabaseSchema\<close> of \<open>types/index.ts\<close>, with the
  fields the autocomplete engine reads. The two \<open>name\<close> fields are \<open>col_name\<close> and
  \<open>name\<close>.
\<close>

record ColumnInfo =
  col_name :: jsstring

record TableInfo =
  name :: jsstring
  columns :: "ColumnInfo list"

record DatabaseSchema =
  tables :: "TableInfo list"
  version :: jsstring

text \<open>The \<open>type\<close> strings \<open>'keyword'\<close>, \<open>'table'\<close> and \<open>'column'\<close>.\<close>

datatype suggestionType = Keyword | Table | Column

record suggestion =
  label :: jsstring
  type :: suggestionType

text \<open>The vocabulary \<open>keywords\<close> of the class, in declaration order.\<close>

definition keywords_list :: "jsstring list" where
  "keywords_list = map js
    [''SELECT'', ''FROM'', ''WHERE'', ''JOIN'', ''INNER'', ''LEFT'', ''RIGHT'', ''FULL'',
     ''OUTER'', ''ON'', ''AS'', ''AND'', ''OR'', ''NOT'', ''IN'', ''LIKE'', ''BETWEEN'',
     ''IS'', ''NULL'', ''ORDER'', ''BY'', ''GROUP'', ''HAVING'', ''LIMIT'', ''OFFSET'',
     ''INSERT'', ''INTO'', ''VALUES'', ''UPDATE'', ''SET'', ''DELETE'', ''CREATE'',
     ''TABLE'', ''ALTER'', ''DROP'', ''INDEX'', ''PRIMARY'', ''KEY'', ''FOREIGN'',
     ''REFERENCES'', ''UNIQUE'', ''NOT'', ''DEFAULT'', ''AUTOINCREMENT'', ''INTEGER'',
     ''TEXT'', ''REAL'', ''BLOB'', ''NUMERIC'', ''BOOLEAN'', ''DATE'', ''DATETIME'',
     ''COUNT'', ''SUM'', ''AVG'', ''MAX'', ''MIN'', ''DISTINCT'', ''EXPLAIN'', ''QUERY'',
     ''PLAN'']"

section \<open>Context classification\<close>

record queryContext =
  afterSelect :: bool
  afterFrom :: bool
  afterJoin :: bool
  afterWhere :: bool
  afterOn :: bool

definition getContext :: "jsstring \<Rightarrow> queryContext" where
  "getContext query =
     (let upperQuery = toUpperCase query;
          lastSelect = lastIndexOf upperQuery (js ''SELECT'');
          lastFrom = lastIndexOf upperQuery (js ''FROM'');
          lastJoin = lastIndexOf upperQuery (js ''JOIN'');
          lastWhere = lastIndexOf upperQuery (js ''WHERE'');
          lastOn = lastIndexOf upperQuery (js ''ON'')
      in \<lparr> afterSelect = lastSelect > lastFrom \<and> lastSelect > lastJoin,
           afterFrom = lastFrom > lastSelect \<and> lastFrom > lastJoin,
           afterJoin = lastJoin > lastFrom,
           afterWhere = lastWhere > lastFrom,
           afterOn = lastOn > lastJoin \<rparr>)"

definition shouldSuggestKeywords :: "queryContext \<Rightarrow> bool" where
  "shouldSuggestKeywords ctx = True"

definition shouldSuggestTables :: "queryContext \<Rightarrow> bool" where
  "shouldSuggestTables ctx = (afterFrom ctx \<or> afterJoin ctx)"

definition shouldSuggestColumns :: "queryContext \<Rightarrow> bool" where
  "shouldSuggestColumns ctx = (afterSelect ctx \<or> afterWhere ctx \<or> afterOn ctx)"

section \<open>Candidate generation\<close>

definition getRelevantColumns :: "DatabaseSchema option \<Rightarrow> jsstring \<Rightarrow> jsstring list" where
  "getRelevantColumns schema query =
     (case schema of
        None \<Rightarrow> []
      | Some sch \<Rightarrow>
          (let upperQuery = toUpperCase query;
               fromMatch = matchKeywordWord (js ''FROM'') upperQuery;
               joinMatch = matchKeywordWord (js ''JOIN'') upperQuery;
               tableNames = (case fromMatch of Some w \<Rightarrow> [w] | None \<Rightarrow> [])
                          @ (case joinMatch of Some w \<Rightarrow> [w] | None \<Rightarrow> []);
               cols = concat (map (\<lambda>tableName.
                         case find (\<lambda>t. toLowerCase (name t) = toLowerCase tableName)
                                (tables sch) of
                           Some t \<Rightarrow> map col_name (columns t)
                         | None \<Rightarrow> []) tableNames)
           in if length cols = 0
              then concat (map (\<lambda>t. map (\<lambda>c. name t @ js ''.'' @ col_name c) (columns t))
                            (tables sch))
              else cols))"

text \<open>
  The comparator of the final sort is
  \<open>(order[a.type] || 3) - (order[b.type] || 3)\<close> with
  \<open>order = { keyword: 0, table: 1, column: 2 }\<close>. The operator \<open>||\<close> yields its
  right operand when the left one is falsy, and \<open>0\<close> is falsy.
\<close>

definition order :: "suggestionType \<Rightarrow> int" where
  "order t = (case t of Keyword \<Rightarrow> 0 | Table \<Rightarrow> 1 | Column \<Rightarrow> 2)"

definition sortRank :: "suggestion \<Rightarrow> int" where
  "sortRank a = (if order (type a) = 0 then 3 else order (type a))"

text \<open>
  \<open>Array.prototype.sort\<close> is stable, and the comparator is the difference of two
  ranks, so the result is the stable sort by rank.
\<close>

definition getSuggestions :: "DatabaseSchema option \<Rightarrow> jsstring \<Rightarrow> int \<Rightarrow> suggestion list" where
  "getSuggestions schema query cursorPosition =
     (let beforeCursor = substring0 query cursorPosition;
          currentWord = (case matchWordAtEnd beforeCursor of
                           Some w \<Rightarrow> toUpperCase w | None \<Rightarrow> []);
          ctx = getContext beforeCursor;
          kws = (if shouldSuggestKeywords ctx
                 then map (\<lambda>kw. \<lparr> label = kw, type = Keyword \<rparr>)
                        (filter (\<lambda>kw. startsWith kw (toUpperCase currentWord)) keywords_list)
                 else []);
          tableNames = (case schema of Some sch \<Rightarrow> map name (tables sch) | None \<Rightarrow> []);
          tbls = (if shouldSuggestTables ctx
                  then map (\<lambda>t. \<lparr> label = t, type = Table \<rparr>)
                         (filter (\<lambda>t. startsWith (toLowerCase t) (toLowerCase currentWord))
                            tableNames)
                  else []);
          cols = (if shouldSuggestColumns ctx
                  then map (\<lambda>c. \<lparr> label = c, type = Column \<rparr>)
                         (filter (\<lambda>c. startsWith (toLowerCase c) (toLowerCase currentWord))
                            (getRelevantColumns schema beforeCursor))
                  else [])
      in sort_key sortRank (kws @ tbls @ cols))"

section \<open>Notions of the specification\<close>

text \<open>
  The current word at the cursor: the maximal trailing run of word characters of the
  text before the cursor.
\<close>

definition trailingWord :: "jsstring \<Rightarrow> jsstring" where
  "trailingWord s = rev (takeWhile isWordChar (rev s))"

text \<open>
  The positions at which keyword \<open>k\<close> (written in upper case) occurs in \<open>s\<close> when
  case is ignored, in ascending order, and the index of the last one, \<open>-1\<close> when
  there is none.
\<close>

definition occurrences :: "jsstring \<Rightarrow> jsstring \<Rightarrow> nat list" where
  "occurrences s k =
     filter (\<lambda>i. toUpperCase (take (length k) (drop i s)) = k) [0..<Suc (length s)]"

definition lastOccurrence :: "jsstring \<Rightarrow> jsstring \<Rightarrow> int" where
  "lastOccurrence s k = (if occurrences s k = [] then -1 else int (last (occurrences s k)))"

text \<open>The three candidate lists for a current word \<open>w\<close>, each with its prefix rule.\<close>

definition keywordCandidates :: "jsstring \<Rightarrow> suggestion list" where
  "keywordCandidates w =
     map (\<lambda>kw. \<lparr> label = kw, type = Keyword \<rparr>)
       (filter (\<lambda>kw. prefix (toUpperCase w) kw) keywords_list)"

definition tableCandidates :: "DatabaseSchema option \<Rightarrow> jsstring \<Rightarrow> suggestion list" where
  "tableCandidates schema w =
     map (\<lambda>t. \<lparr> label = t, type = Table \<rparr>)
       (filter (\<lambda>t. prefix (toLowerCase w) (toLowerCase t))
          (case schema of Some sch \<Rightarrow> map name (tables sch) | None \<Rightarrow> []))"

definition columnCandidates :: "jsstring list \<Rightarrow> jsstring \<Rightarrow> suggestion list" where
  "columnCandidates cs w =
     map (\<lambda>c. \<lparr> label = c, type = Column \<rparr>)
       (filter (\<lambda>c. prefix (toLowerCase w) (toLowerCase c)) cs)"








text \<open>Sample snapshots and texts.\<close>

definition usersSchema :: DatabaseSchema where
  "usersSchema =
     \<lparr> tables = [\<lparr> name = js ''users'',
                   columns = [\<lparr> col_name = js ''id'' \<rparr>, \<lparr> col_name = js ''name'' \<rparr>] \<rparr>],
       version = js ''1.0.0'' \<rparr>"



definition sharpSelect :: jsstring where
  "sharpSelect = Latin1 (CHR 0xDF) # js ''elect ''"

section \<open>Query history\<close>

text \<open>
  \<open>QueryResult\<close> and \<open>QueryHistoryItem\<close> of \<open>types/index.ts\<close>. A
  \<open>QueryHistoryItem\<close> here is an entry of the log as the code reads it. An entry made
  by \<open>add\<close> has every field. An entry loaded from storage is whatever object was
  stored, so \<open>id\<close>, \<open>query\<close> and \<open>executionTime\<close> are options, \<open>None\<close> when the
  property is missing or not of its type, like the optional \<open>result\<close> and \<open>error\<close>;
  comparing such a property with a string by \<open>!==\<close> is true. \<open>timestamp\<close> is the
  number the property coerces to, an integer of milliseconds. \<open>executionTime\<close> is
  stored and never computed with. The field \<open>id\<close> is \<open>item_id\<close>, and the fields
  \<open>columns\<close> and \<open>values\<close> of a result are \<open>res_columns\<close> and \<open>res_values\<close>.
\<close>

datatype sqlValue = SqlNull | SqlNumber real | SqlText jsstring

record QueryResult =
  res_columns :: "jsstring list"
  res_values :: "sqlValue list list"
  rowsAffected :: "int option"

record QueryHistoryItem =
  item_id :: "jsstring option"
  query :: "jsstring option"
  timestamp :: int
  executionTime :: "real option"
  result :: "QueryResult option"
  error :: "jsstring option"

text \<open>
  The browser's \<open>localStorage\<close>, as far as the history manager uses it. The global
  may be missing, reading the global may throw, and \<open>getItem\<close> and \<open>setItem\<close> may
  throw. The text stored under the manager's key is described by what
  \<open>JSON.parse\<close> makes of it: nothing stored (\<open>None\<close>), the empty text, a text that
  does not parse, a value that is not an array, or an array. An array element is
  \<open>null\<close> (reading its \<open>timestamp\<close> throws); or a value whose \<open>timestamp\<close> coerces
  to no number, so that its comparison with any horizon is false (\<open>ElemOther\<close>: a
  number, a string, a boolean, an array, or an object whose \<open>timestamp\<close> is missing
  or not numeric); or an object whose \<open>timestamp\<close> coerces to an integer
  (\<open>ElemItem\<close>, with the fields as the code reads them, whether or not it has the
  shape of an item). Elements whose \<open>timestamp\<close> coerces to a number that is no
  integer are outside this development. \<open>JSON.stringify\<close> followed by
  \<open>JSON.parse\<close> gives back the entries it was given.
\<close>

datatype jsError = SecurityError | SyntaxError | TypeError | QuotaExceededError

datatype storageAccess = Absent | Denied | Present

datatype storedElem = ElemNull | ElemOther | ElemItem QueryHistoryItem

datatype storedValue = EmptyText | Unparseable | NotArray | JsonArray "storedElem list"

record localStorage =
  access :: storageAccess
  getItemThrows :: bool
  setItemThrows :: bool
  item :: "storedValue option"

text \<open>
  The manager: its private fields and the \<open>localStorage\<close> it reaches through the
  global \<open>window\<close>.
\<close>

record QueryHistoryManager =
  history :: "QueryHistoryItem list"
  maxHistorySize :: int
  storage :: localStorage

text \<open>\<open>s.trim()\<close>.\<close>

definition trim :: "jsstring \<Rightarrow> jsstring" where
  "trim s = rev (dropWhile isSpaceChar (rev (dropWhile isSpaceChar s)))"

text \<open>\<open>xs.slice(0, n)\<close>: a negative end counts from the end of the array.\<close>

definition slice0 :: "'a list \<Rightarrow> int \<Rightarrow> 'a list" where
  "slice0 xs n = (if n < 0 then take (nat (int (length xs) + n)) xs else take (nat n) xs)"

text \<open>
  The callback of \<open>parsed.filter\<close> in \<open>loadFromStorage\<close>, over the elements in
  order: it throws at the first \<open>null\<close>, and keeps every object whose \<open>timestamp\<close>
  is above the horizon.
\<close>

fun filterStored :: "int \<Rightarrow> storedElem list \<Rightarrow> jsError + QueryHistoryItem list" where
  "filterStored thirtyDaysAgo [] = Inr []"
| "filterStored thirtyDaysAgo (ElemNull # es) = Inl TypeError"
| "filterStored thirtyDaysAgo (ElemOther # es) = filterStored thirtyDaysAgo es"
| "filterStored thirtyDaysAgo (ElemItem i # es) =
     (case filterStored thirtyDaysAgo es of
        Inl e \<Rightarrow> Inl e
      | Inr r \<Rightarrow> Inr (if timestamp i > thirtyDaysAgo then i # r else r))"

text \<open>
  The body of the \<open>try\<close> block of \<open>loadFromStorage\<close>, with \<open>now\<close> the value of
  \<open>Date.now()\<close>, and \<open>loadFromStorage\<close> itself, whose \<open>catch\<close> only logs a warning.
\<close>

definition loadFromStorage_try :: "int \<Rightarrow> QueryHistoryManager \<Rightarrow> jsError + QueryHistoryManager" where
  "loadFromStorage_try now m =
     (case access (storage m) of
        Absent \<Rightarrow> Inr m
      | Denied \<Rightarrow> Inl SecurityError
      | Present \<Rightarrow>
          if getItemThrows (storage m) then Inl SecurityError
          else (case item (storage m) of
                  None \<Rightarrow> Inr m
                | Some EmptyText \<Rightarrow> Inr m
                | Some Unparseable \<Rightarrow> Inl SyntaxError
                | Some NotArray \<Rightarrow> Inl TypeError
                | Some (JsonArray parsed) \<Rightarrow>
                    (let thirtyDaysAgo = now - 30 * 24 * 60 * 60 * 1000
                     in case filterStored thirtyDaysAgo parsed of
                          Inl e \<Rightarrow> Inl e
                        | Inr items \<Rightarrow> Inr (m\<lparr> history := items \<rparr>))))"

definition loadFromStorage :: "int \<Rightarrow> QueryHistoryManager \<Rightarrow> jsError + QueryHistoryManager" where
  "loadFromStorage now m =
     (case loadFromStorage_try now m of
        Inl e \<Rightarrow> Inr m
      | Inr m' \<Rightarrow> Inr m')"

text \<open>The same for \<open>saveToStorage\<close>.\<close>

definition saveToStorage_try :: "QueryHistoryManager \<Rightarrow> jsError + QueryHistoryManager" where
  "saveToStorage_try m =
     (case access (storage m) of
        Absent \<Rightarrow> Inr m
      | Denied \<Rightarrow> Inl SecurityError
      | Present \<Rightarrow>
          (let recentHistory = slice0 (history m) 50
           in if setItemThrows (storage m) then Inl QuotaExceededError
              else Inr (m\<lparr> storage := (storage m)\<lparr> item :=
                          Some (JsonArray (map ElemItem recentHistory)) \<rparr> \<rparr>)))"

definition saveToStorage :: "QueryHistoryManager \<Rightarrow> jsError + QueryHistoryManager" where
  "saveToStorage m =
     (case saveToStorage_try m of
        Inl e \<Rightarrow> Inr m
      | Inr m' \<Rightarrow> Inr m')"

text \<open>
  \<open>new QueryHistoryManager(maxSize)\<close> in a browser whose storage is \<open>st\<close> and
  whose clock reads \<open>now\<close>.
\<close>

definition construct :: "int \<Rightarrow> localStorage \<Rightarrow> int \<Rightarrow> jsError + QueryHistoryManager" where
  "construct maxSize st now =
     loadFromStorage now \<lparr> history = [], maxHistorySize = maxSize, storage = st \<rparr>"

text \<open>
  What one call of \<open>add\<close> takes from its environment: the identifier made by
  \<open>generateId\<close>, the reading of \<open>Date.now()\<close> that becomes the \<open>timestamp\<close>, and the
  reading of \<open>Date.now()\<close> in the filter that removes recent duplicates.
\<close>

record addEnv =
  newId :: jsstring
  stamp :: int
  filterNow :: int

definition newItem ::
  "jsstring \<Rightarrow> real \<Rightarrow> QueryResult option \<Rightarrow> jsstring option \<Rightarrow> addEnv \<Rightarrow> QueryHistoryItem" where
  "newItem q t res err env =
     \<lparr> item_id = Some (newId env), query = Some (trim q), timestamp = stamp env,
       executionTime = Some t, result = res, error = err \<rparr>"

definition add ::
  "jsstring \<Rightarrow> real \<Rightarrow> QueryResult option \<Rightarrow> jsstring option \<Rightarrow> addEnv
     \<Rightarrow> QueryHistoryManager \<Rightarrow> jsError + QueryHistoryManager" where
  "add q t res err env m =
     (let it = newItem q t res err env;
          h1 = filter (\<lambda>h. query h \<noteq> query it \<or> filterNow env - timestamp h > 60000)
                 (history m);
          h2 = it # h1;
          h3 = (if int (length h2) > maxHistorySize m
                then slice0 h2 (maxHistorySize m) else h2)
      in saveToStorage (m\<lparr> history := h3 \<rparr>))"

definition getAll :: "QueryHistoryManager \<Rightarrow> QueryHistoryItem list" where
  "getAll m = history m"

definition clear :: "QueryHistoryManager \<Rightarrow> jsError + QueryHistoryManager" where
  "clear m = saveToStorage (m\<lparr> history := [] \<rparr>)"

definition remove :: "jsstring \<Rightarrow> QueryHistoryManager \<Rightarrow> jsError + QueryHistoryManager" where
  "remove i m =
     saveToStorage (m\<lparr> history := filter (\<lambda>h. item_id h \<noteq> Some i) (history m) \<rparr>)"

text \<open>A sequence of calls of \<open>add\<close>, each with its arguments and its environment.\<close>

record addCall =
  call_query :: jsstring
  call_time :: real
  call_result :: "QueryResult option"
  call_error :: "jsstring option"
  call_env :: addEnv

definition addOne :: "addCall \<Rightarrow> QueryHistoryManager \<Rightarrow> jsError + QueryHistoryManager" where
  "addOne c m = add (call_query c) (call_time c) (call_result c) (call_error c) (call_env c) m"

fun addAll :: "addCall list \<Rightarrow> QueryHistoryManager \<Rightarrow> jsError + QueryHistoryManager" where
  "addAll [] m = Inr m"
| "addAll (c # cs) m =
     (case addOne c m of
        Inl e \<Rightarrow> Inl e
      | Inr m' \<Rightarrow> addAll cs m')"

text \<open>
  The list that one call of \<open>add\<close> leaves in memory, from the new item \<open>it\<close>, the
  clock reading \<open>now\<close> of the filter, the maximum size \<open>k\<close> and the list \<open>hs\<close>
  before the call.
\<close>

definition afterAdd :: "QueryHistoryItem \<Rightarrow> int \<Rightarrow> int \<Rightarrow> QueryHistoryItem list \<Rightarrow> QueryHistoryItem list" where
  "afterAdd it now k hs =
     (let h2 = it # filter (\<lambda>h. query h \<noteq> query it \<or> now - timestamp h > 60000) hs
      in if int (length h2) > k then slice0 h2 k else h2)"

text \<open>The query text that a call stores: the trimmed text of its argument.\<close>

definition callQuery :: "addCall \<Rightarrow> jsstring option" where
  "callQuery c = Some (trim (call_query c))"

text \<open>
  \<open>t\<close> is \<open>q\<close> without its leading and trailing white space: \<open>q\<close> is \<open>t\<close> between
  two runs of white space, and \<open>t\<close> neither starts nor ends with white space.
\<close>

definition strippedOf :: "jsstring \<Rightarrow> jsstring \<Rightarrow> bool" where
  "strippedOf q t =
     (\<exists>l r. q = l @ t @ r \<and> list_all isSpaceChar l \<and> list_all isSpaceChar r
        \<and> (t = [] \<or> (\<not> isSpaceChar (hd t) \<and> \<not> isSpaceChar (last t))))"

text \<open>
  Sample values: a storage that works and holds nothing, a storage whose access
  throws, a manager with an empty log, the environment of a call at a given clock
  reading, a call of \<open>add\<close> with no result and no error, a stored item, a working
  storage that holds three items, and a working storage that holds the single
  object \<open>{"timestamp":"9999999999999"}\<close>.
\<close>

definition workingStorage :: localStorage where
  "workingStorage = \<lparr> access = Present, getItemThrows = False, setItemThrows = False, item = None \<rparr>"

definition deniedStorage :: localStorage where
  "deniedStorage = \<lparr> access = Denied, getItemThrows = False, setItemThrows = True,
                      item = Some Unparseable \<rparr>"

definition emptyManager :: "int \<Rightarrow> QueryHistoryManager" where
  "emptyManager k = \<lparr> history = [], maxHistorySize = k, storage = workingStorage \<rparr>"

definition envAt :: "jsstring \<Rightarrow> int \<Rightarrow> addEnv" where
  "envAt i now = \<lparr> newId = i, stamp = now, filterNow = now \<rparr>"

definition callAt :: "jsstring \<Rightarrow> int \<Rightarrow> addCall" where
  "callAt q now = \<lparr> call_query = q, call_time = 1, call_result = None, call_error = None,
                    call_env = envAt q now \<rparr>"

definition storedItem :: "jsstring \<Rightarrow> int \<Rightarrow> QueryHistoryItem" where
  "storedItem q ts = \<lparr> item_id = Some q, query = Some q, timestamp = ts, executionTime = Some 1,
                       result = None, error = None \<rparr>"

definition threeStored :: localStorage where
  "threeStored = workingStorage \<lparr> item := Some (JsonArray (map ElemItem
      [storedItem (js ''c'') 3000, storedItem (js ''b'') 2000, storedItem (js ''a'') 1000])) \<rparr>"

definition timestampOnly :: QueryHistoryItem where
  "timestampOnly = \<lparr> item_id = None, query = None, timestamp = 9999999999999,
                     executionTime = None, result = None, error = None \<rparr>"

section \<open>Properties of the string operations\<close>

lemma startsWith_prefix: "startsWith s w = prefix w s"
  unfolding startsWith_def prefix_def
  by (metis append_eq_conv_conj append_take_drop_id)

lemma toUpperChar_idem: "concat (map toUpperChar (toUpperChar c)) = toUpperChar c"
proof (cases c)
  case (Latin1 a)
  have "of_char a < (256::nat)" by simp
  then show ?thesis
    unfolding Latin1 by (auto simp: toUpperChar_def Let_def)
qed (simp_all add: toUpperChar_def)

lemma toUpperCase_idem: "toUpperCase (toUpperCase s) = toUpperCase s"
  by (induction s) (simp_all add: toUpperCase_def toUpperChar_idem)

lemma toLower_toUpper_word:
  assumes "isWordChar c"
  shows "map toLowerChar (toUpperChar c) = [toLowerChar c]"
proof (cases c)
  case (Latin1 a)
  define n where "n = (of_char a :: nat)"
  have a: "a = char_of n" by (simp add: n_def)
  have lt: "n < 256" by (simp add: n_def)
  from assms have r: "(97 \<le> n \<and> n \<le> 122) \<or> (65 \<le> n \<and> n \<le> 90) \<or> (48 \<le> n \<and> n \<le> 57) \<or> n = 95"
    by (simp add: isWordChar_def Latin1 n_def Let_def)
  show ?thesis
  proof (cases "97 \<le> n \<and> n \<le> 122")
    case True
    then have u: "toUpperChar c = [Latin1 (char_of (n - 32))]"
      by (simp add: toUpperChar_def Latin1 n_def Let_def)
    from lt have "n - 32 < 256" by arith
    then have "of_char (char_of (n - 32) :: char) = n - 32"
      by simp
    with True have "toLowerChar (Latin1 (char_of (n - 32))) = Latin1 (char_of n)"
      by (simp add: toLowerChar_def Let_def; arith)
    moreover from True have "toLowerChar c = c"
      by (simp add: toLowerChar_def Latin1 n_def Let_def)
    ultimately show ?thesis
      unfolding u by (simp add: Latin1 a)
  next
    case False
    with r have nb: "\<not> (97 \<le> n \<and> n \<le> 122)" "n \<noteq> 181" "n \<noteq> 223"
      "\<not> (224 \<le> n \<and> n \<le> 254 \<and> n \<noteq> 247)" "n \<noteq> 255"
      by arith+
    then have "toUpperChar c = [c]"
      unfolding n_def by (simp add: toUpperChar_def Latin1 Let_def) blast
    then show ?thesis by simp
  qed
next
  case CapitalMu
  with assms show ?thesis by (simp add: isWordChar_def)
next
  case SmallMu
  with assms show ?thesis by (simp add: isWordChar_def)
next
  case CapitalYDiaeresis
  with assms show ?thesis by (simp add: isWordChar_def)
qed

lemma toLowerCase_toUpperCase:
  "list_all isWordChar w \<Longrightarrow> toLowerCase (toUpperCase w) = toLowerCase w"
  by (induction w) (simp_all add: toUpperCase_def toLowerCase_def toLower_toUpper_word)


text \<open>
  The current word is a suffix of the text, consists of word characters, and is
  maximal: the character before it, if any, is not a word character.
\<close>

lemma trailingWord_words: "list_all isWordChar (trailingWord s)"
  by (auto simp: trailingWord_def list_all_iff dest: set_takeWhileD)

lemma trailingWord_maximal:
  "\<exists>pre. s = pre @ trailingWord s \<and> list_all isWordChar (trailingWord s)
      \<and> (pre = [] \<or> \<not> isWordChar (last pre))"
proof -
  let ?pre = "rev (dropWhile isWordChar (rev s))"
  have "rev (takeWhile isWordChar (rev s) @ dropWhile isWordChar (rev s)) = s"
    by (simp only: takeWhile_dropWhile_id rev_rev_ident)
  then have a: "s = ?pre @ trailingWord s"
    by (simp only: trailingWord_def rev_append)
  have c: "?pre = [] \<or> \<not> isWordChar (last ?pre)"
  proof (cases "dropWhile isWordChar (rev s) = []")
    case True
    then show ?thesis by simp
  next
    case False
    then have "\<not> isWordChar (hd (dropWhile isWordChar (rev s)))"
      by (rule hd_dropWhile)
    then show ?thesis by (simp add: last_rev)
  qed
  from a trailingWord_words c show ?thesis by blast
qed

text \<open>The match of \<open>/(\w+)$/\<close> is the maximal trailing run of word characters.\<close>

lemma matchWordAtEnd_all:
  "list_all isWordChar s \<Longrightarrow> matchWordAtEnd s = (if s = [] then None else Some s)"
  by (cases s) auto

lemma matchWordAtEnd_trailing:
  "(case matchWordAtEnd s of Some w \<Rightarrow> w | None \<Rightarrow> []) = trailingWord s"
proof (induction s)
  case Nil
  show ?case by (simp add: trailingWord_def)
next
  case (Cons c cs)
  show ?case
  proof (cases "list_all isWordChar (c # cs)")
    case True
    then have "takeWhile isWordChar (rev (c # cs)) = rev (c # cs)"
      by (intro takeWhile_eq_all_conv[THEN iffD2]) (auto simp: list_all_iff)
    then have "trailingWord (c # cs) = c # cs"
      unfolding trailingWord_def by (metis rev_rev_ident)
    with True show ?thesis by simp
  next
    case False
    show ?thesis
    proof (cases "list_all isWordChar cs")
      case True
      with False have nc: "\<not> isWordChar c" by simp
      from True have "takeWhile isWordChar (rev cs @ [c]) = rev cs"
        using nc by (simp add: takeWhile_tail takeWhile_eq_all_conv list_all_iff)
      with False True show ?thesis
        by (simp add: trailingWord_def matchWordAtEnd_all)
    next
      case F2: False
      then have "takeWhile isWordChar (rev cs @ [c]) = takeWhile isWordChar (rev cs)"
        by (auto simp: list_all_iff intro: takeWhile_append1)
      with False F2 Cons show ?thesis
        by (simp add: trailingWord_def)
    qed
  qed
qed

lemma currentWord_eq:
  "(case matchWordAtEnd s of Some w \<Rightarrow> toUpperCase w | None \<Rightarrow> [])
     = toUpperCase (trailingWord s)"
  using matchWordAtEnd_trailing [of s]
  by (cases "matchWordAtEnd s") (auto simp: toUpperCase_def)

section \<open>Properties of the suggestions\<close>



lemma getSuggestions_generation:
  "getSuggestions schema q p =
     (let b = substring0 q p; w = trailingWord b; ctx = getContext b
      in sort_key sortRank
           (keywordCandidates w
            @ (if afterFrom ctx \<or> afterJoin ctx then tableCandidates schema w else [])
            @ (if afterSelect ctx \<or> afterWhere ctx \<or> afterOn ctx
               then columnCandidates (getRelevantColumns schema b) w else [])))"
  by (simp add: getSuggestions_def Let_def currentWord_eq toUpperCase_idem
      toLowerCase_toUpperCase trailingWord_words startsWith_prefix shouldSuggestKeywords_def
      shouldSuggestTables_def shouldSuggestColumns_def keywordCandidates_def
      tableCandidates_def columnCandidates_def)




text \<open>
  Claim C1. \<open>getSuggestions\<close> is a total function (every recursion it uses is
  structural), and every candidate it returns matches the current word at the
  cursor, the maximal trailing run of word characters before it: the label of a
  keyword candidate starts with the upper-cased current word, and the lower-cased
  label of a table or column candidate starts with the lower-cased current word.
  This holds for every cursor offset, in particular for \<open>0 \<le> p \<le> length q\<close>.
\<close>

theorem getSuggestions_prefix_match:
  "\<forall>c \<in> set (getSuggestions schema q p).
     (type c = Keyword \<longrightarrow>
        prefix (toUpperCase (trailingWord (substring0 q p))) (label c)) \<and>
     (type c = Table \<or> type c = Column \<longrightarrow>
        prefix (toLowerCase (trailingWord (substring0 q p))) (toLowerCase (label c)))"
  by (auto simp: getSuggestions_generation Let_def keywordCandidates_def tableCandidates_def
      columnCandidates_def)

theorem getSuggestions_prefix_match_witness:
  "\<lparr> label = js ''name'', type = Column \<rparr>
      \<in> set (getSuggestions (Some usersSchema) (js ''select * from users where n'') 27)
   \<and> trailingWord (substring0 (js ''select * from users where n'') 27) = js ''n''
   \<and> prefix (toLowerCase (trailingWord (substring0 (js ''select * from users where n'') 27)))
        (toLowerCase (js ''name''))"
proof -
  have m: "\<lparr> label = js ''name'', type = Column \<rparr>
      \<in> set (getSuggestions (Some usersSchema) (js ''select * from users where n'') 27)"
    by code_simp
  have w: "trailingWord (substring0 (js ''select * from users where n'') 27) = js ''n''"
    by code_simp
  from bspec [OF getSuggestions_prefix_match
      [of "Some usersSchema" "js ''select * from users where n''" 27] m]
  have "prefix (toLowerCase (trailingWord (substring0 (js ''select * from users where n'') 27)))
        (toLowerCase (label \<lparr> label = js ''name'', type = Column \<rparr>))"
    by simp
  with m w show ?thesis by simp
qed

text \<open>
  Claim C4. The claim asks for keyword candidates before table candidates before
  column candidates. The comparator ranks a keyword 3, since \<open>0 || 3\<close> is 3, so
  the sort puts the keywords last: with the snapshot of one table \<open>users\<close>, the
  query \<open>SELECT * FROM\<close> followed by a space and the cursor at its end, the table
  candidate comes first and the keywords follow in declaration order.
\<close>

theorem getSuggestions_table_before_keywords:
  "getSuggestions (Some usersSchema) (js ''SELECT * FROM '') 14
     = \<lparr> label = js ''users'', type = Table \<rparr> # keywordCandidates []"
  by code_simp

text \<open>
  Claim C9. The vocabulary holds \<open>NOT\<close> twice, so the suggestions for \<open>NO\<close> with
  the cursor at its end are two equal keyword candidates \<open>NOT\<close>, whatever the
  snapshot: suggestion lists are not free of duplicates.
\<close>

theorem getSuggestions_duplicate_NOT:
  "getSuggestions schema (js ''NO'') 2
     = [\<lparr> label = js ''NOT'', type = Keyword \<rparr>, \<lparr> label = js ''NOT'', type = Keyword \<rparr>]
   \<and> \<not> distinct (getSuggestions schema (js ''NO'') 2)"
proof -
  have c: "getContext (substring0 (js ''NO'') 2) = \<lparr> afterSelect = False, afterFrom = False,
      afterJoin = False, afterWhere = False, afterOn = False \<rparr>"
    by code_simp
  have w: "trailingWord (substring0 (js ''NO'') 2) = js ''NO''"
    by code_simp
  have k: "keywordCandidates (js ''NO'')
      = [\<lparr> label = js ''NOT'', type = Keyword \<rparr>, \<lparr> label = js ''NOT'', type = Keyword \<rparr>]"
    by code_simp
  have "getSuggestions schema (js ''NO'') 2
     = [\<lparr> label = js ''NOT'', type = Keyword \<rparr>, \<lparr> label = js ''NOT'', type = Keyword \<rparr>]"
    by (simp add: getSuggestions_generation Let_def c w k sortRank_def order_def)
  then show ?thesis by simp
qed

theorem getSuggestions_duplicate_NOT_witness:
  "length (getSuggestions (Some usersSchema) (js ''NO'') 2) = 2
   \<and> getSuggestions (Some usersSchema) (js ''NO'') 2 ! 0
       = getSuggestions (Some usersSchema) (js ''NO'') 2 ! 1"
  using getSuggestions_duplicate_NOT [of "Some usersSchema"] by simp

text \<open>
  \<open>lastIndexOf\<close> returns the last position at which the keyword stands, and on
  upper-cased text that is the last occurrence with case ignored. Where upper-casing
  changes the length of no character, the occurrences in the upper-cased text are
  those in the text itself.
\<close>

lemma lastIndexFrom_filter:
  "lastIndexFrom s k n =
     (let ps = filter (\<lambda>i. take (length k) (drop i s) = k) [0..<Suc n]
      in if ps = [] then -1 else int (last ps))"
  by (induction n) (auto simp: Let_def)

lemma toUpperChar_stable: "x \<in> set (toUpperChar c) \<Longrightarrow> toUpperChar x = [x]"
proof (cases c)
  case (Latin1 a)
  assume x: "x \<in> set (toUpperChar c)"
  have "of_char a < (256::nat)" by simp
  with x show ?thesis
    unfolding Latin1 by (auto simp: toUpperChar_def Let_def split: if_splits)
qed (auto simp: toUpperChar_def)

lemma stable_toUpperCase: "\<forall>c \<in> set u. toUpperChar c = [c] \<Longrightarrow> toUpperCase u = u"
  by (induction u) (simp_all add: toUpperCase_def)

lemma toUpperCase_stable: "\<forall>c \<in> set (toUpperCase s). toUpperChar c = [c]"
  by (auto simp: toUpperCase_def dest: toUpperChar_stable)

lemma lastIndexOf_stable:
  assumes "\<forall>c \<in> set u. toUpperChar c = [c]"
  shows "lastIndexOf u k = lastOccurrence u k"
proof -
  have "toUpperCase (take n (drop i u)) = take n (drop i u)" for n i
    using assms by (intro stable_toUpperCase) (auto dest: in_set_takeD in_set_dropD)
  then show ?thesis
    by (simp add: lastIndexOf_def lastIndexFrom_filter lastOccurrence_def occurrences_def Let_def)
qed

lemma lastIndexOf_lastOccurrence:
  "lastIndexOf (toUpperCase s) k = lastOccurrence (toUpperCase s) k"
  by (rule lastIndexOf_stable) (rule toUpperCase_stable)

lemma toUpperCase_charwise:
  "\<forall>c \<in> set s. length (toUpperChar c) = 1 \<Longrightarrow> toUpperCase s = map (\<lambda>c. hd (toUpperChar c)) s"
proof (induction s)
  case Nil
  show ?case by (simp add: toUpperCase_def)
next
  case (Cons c s)
  from Cons.prems have "length (toUpperChar c) = 1" by simp
  then have "toUpperChar c = [hd (toUpperChar c)]"
    by (cases "toUpperChar c") simp_all
  with Cons show ?case by (simp add: toUpperCase_def)
qed

lemma toUpperCase_take_drop:
  assumes "\<forall>c \<in> set s. length (toUpperChar c) = 1"
  shows "toUpperCase (take n (drop i s)) = take n (drop i (toUpperCase s))"
proof -
  from assms have "\<forall>c \<in> set (take n (drop i s)). length (toUpperChar c) = 1"
    by (auto dest: in_set_takeD in_set_dropD)
  then show ?thesis
    by (simp add: toUpperCase_charwise assms take_map drop_map)
qed

lemma lastOccurrence_same_length:
  assumes "\<forall>c \<in> set s. length (toUpperChar c) = 1"
  shows "lastOccurrence (toUpperCase s) k = lastOccurrence s k"
proof -
  have l: "length (toUpperCase s) = length s"
    by (simp add: toUpperCase_charwise assms)
  have "toUpperCase (take n (drop i (toUpperCase s))) = toUpperCase (take n (drop i s))" for n i
  proof -
    have "toUpperCase (take n (drop i (toUpperCase s)))
        = toUpperCase (toUpperCase (take n (drop i s)))"
      by (simp only: toUpperCase_take_drop [OF assms])
    then show ?thesis by (simp only: toUpperCase_idem)
  qed
  then show ?thesis
    by (simp add: lastOccurrence_def occurrences_def l)
qed

text \<open>
  \<open>lastOccurrence\<close> is \<open>-1\<close> when the keyword occurs nowhere, and otherwise a
  position where it occurs with no occurrence to the right of it.
\<close>

lemma lastOccurrence_last:
  "(lastOccurrence s k = -1 \<and> (\<forall>i \<le> length s. toUpperCase (take (length k) (drop i s)) \<noteq> k))
   \<or> (\<exists>i \<le> length s. lastOccurrence s k = int i
         \<and> toUpperCase (take (length k) (drop i s)) = k
         \<and> (\<forall>j \<le> length s. i < j \<longrightarrow> toUpperCase (take (length k) (drop j s)) \<noteq> k))"
proof (cases "occurrences s k = []")
  case True
  then have "\<forall>i \<le> length s. toUpperCase (take (length k) (drop i s)) \<noteq> k"
    by (auto simp del: upt_Suc simp: occurrences_def filter_empty_conv)
  with True show ?thesis by (simp add: lastOccurrence_def)
next
  case False
  let ?P = "\<lambda>i. toUpperCase (take (length k) (drop i s)) = k"
  let ?i = "last (occurrences s k)"
  from False have m: "?i \<in> set (occurrences s k)" by (rule last_in_set)
  then have i: "?i \<le> length s" "?P ?i"
    by (auto simp del: upt_Suc simp: occurrences_def)
  have srt: "sorted (occurrences s k)"
    unfolding occurrences_def by (rule sorted_wrt_filter) (rule sorted_upt)
  have "\<not> ?P j" if "j \<le> length s" "?i < j" for j
  proof
    assume "?P j"
    with that have "j \<in> set (occurrences s k)"
      by (auto simp del: upt_Suc simp: occurrences_def)
    then obtain n where n: "n < length (occurrences s k)" "occurrences s k ! n = j"
      by (auto simp: in_set_conv_nth)
    from False have "?i = occurrences s k ! (length (occurrences s k) - 1)"
      by (rule last_conv_nth)
    with srt n have "j \<le> ?i"
      by (metis Suc_pred' length_greater_0_conv False less_Suc_eq_le sorted_nth_mono diff_less zero_less_one)
    with that show False by simp
  qed
  with i False show ?thesis
    by (auto simp: lastOccurrence_def)
qed

text \<open>
  Claim C2, as stated, takes the position of a keyword in the text before the
  cursor. The code takes it in the upper-cased text, and upper-casing turns a sharp
  s into \<open>SS\<close>: before the cursor at the end of \<open>sharpSelect\<close> no \<open>SELECT\<close> occurs
  with case ignored, yet \<open>afterSelect\<close> holds.
\<close>

theorem getContext_flags_counterexample:
  "afterSelect (getContext (substring0 sharpSelect 7))
     \<noteq> (lastOccurrence (substring0 sharpSelect 7) (js ''SELECT'')
            > lastOccurrence (substring0 sharpSelect 7) (js ''FROM'')
          \<and> lastOccurrence (substring0 sharpSelect 7) (js ''SELECT'')
            > lastOccurrence (substring0 sharpSelect 7) (js ''JOIN''))"
  by code_simp

text \<open>
  Claim C2, amended. With \<open>b\<close> the text before the cursor and \<open>L K\<close> the index of
  the last occurrence of keyword \<open>K\<close>, with case ignored, in the upper-cased \<open>b\<close>
  (\<open>-1\<close> when there is none), the five flags are exactly the five comparisons. When
  upper-casing changes the length of no character of \<open>b\<close>, as for ASCII text, \<open>L K\<close>
  is the index of the last occurrence in \<open>b\<close> itself. The flags are not exclusive:
  after \<open>SELECT * FROM a JOIN b ON\<close> both \<open>afterJoin\<close> and \<open>afterOn\<close> hold.
\<close>

theorem getContext_flags:
  "(let b = substring0 q p; ctx = getContext b; L = lastOccurrence (toUpperCase b)
    in afterSelect ctx = (L (js ''SELECT'') > L (js ''FROM'') \<and> L (js ''SELECT'') > L (js ''JOIN''))
     \<and> afterFrom ctx = (L (js ''FROM'') > L (js ''SELECT'') \<and> L (js ''FROM'') > L (js ''JOIN''))
     \<and> afterJoin ctx = (L (js ''JOIN'') > L (js ''FROM''))
     \<and> afterWhere ctx = (L (js ''WHERE'') > L (js ''FROM''))
     \<and> afterOn ctx = (L (js ''ON'') > L (js ''JOIN'')))
   \<and> ((\<forall>c \<in> set (substring0 q p). length (toUpperChar c) = 1) \<longrightarrow>
        (\<forall>k. lastOccurrence (toUpperCase (substring0 q p)) k
               = lastOccurrence (substring0 q p) k))
   \<and> afterJoin (getContext (substring0 (js ''SELECT * FROM a JOIN b ON '') 26))
   \<and> afterOn (getContext (substring0 (js ''SELECT * FROM a JOIN b ON '') 26))"
proof -
  have "afterJoin (getContext (substring0 (js ''SELECT * FROM a JOIN b ON '') 26))"
    by code_simp
  moreover have "afterOn (getContext (substring0 (js ''SELECT * FROM a JOIN b ON '') 26))"
    by code_simp
  ultimately show ?thesis
    by (simp add: getContext_def Let_def lastIndexOf_lastOccurrence lastOccurrence_same_length)
qed

theorem getContext_flags_witness:
  "lastOccurrence (js ''select * from a join b on '') (js ''SELECT'') = 0
   \<and> lastOccurrence (js ''select * from a join b on '') (js ''FROM'') = 9
   \<and> lastOccurrence (js ''select * from a join b on '') (js ''JOIN'') = 16
   \<and> lastOccurrence (js ''select * from a join b on '') (js ''WHERE'') = -1
   \<and> lastOccurrence (js ''select * from a join b on '') (js ''ON'') = 23
   \<and> getContext (substring0 (js ''select * from a join b on '') 26)
       = \<lparr> afterSelect = False, afterFrom = False, afterJoin = True,
           afterWhere = False, afterOn = True \<rparr>"
proof -
  have b: "substring0 (js ''select * from a join b on '') 26 = js ''select * from a join b on ''"
    by code_simp
  have h: "\<forall>c \<in> set (substring0 (js ''select * from a join b on '') 26). length (toUpperChar c) = 1"
    by code_simp
  have l: "lastOccurrence (js ''select * from a join b on '') (js ''SELECT'') = 0"
    "lastOccurrence (js ''select * from a join b on '') (js ''FROM'') = 9"
    "lastOccurrence (js ''select * from a join b on '') (js ''JOIN'') = 16"
    "lastOccurrence (js ''select * from a join b on '') (js ''WHERE'') = -1"
    "lastOccurrence (js ''select * from a join b on '') (js ''ON'') = 23"
    by code_simp+
  note t = getContext_flags [of "js ''select * from a join b on ''" 26]
  from t h have u: "lastOccurrence (toUpperCase (substring0 (js ''select * from a join b on '') 26)) k
      = lastOccurrence (substring0 (js ''select * from a join b on '') 26) k" for k
    by blast
  from t have "getContext (substring0 (js ''select * from a join b on '') 26)
       = \<lparr> afterSelect = False, afterFrom = False, afterJoin = True,
           afterWhere = False, afterOn = True \<rparr>"
    unfolding Let_def u unfolding b l
    by (cases "getContext (js ''select * from a join b on '')") simp
  with l show ?thesis by simp
qed













section \<open>Properties of the query history\<close>

lemma saveToStorage_keeps:
  "\<exists>m'. saveToStorage m = Inr m' \<and> history m' = history m
      \<and> maxHistorySize m' = maxHistorySize m"
  by (auto simp: saveToStorage_def saveToStorage_try_def Let_def
      split: storageAccess.splits sum.splits if_splits)

lemma saveToStorage_written:
  "access (storage m) = Present \<Longrightarrow> \<not> setItemThrows (storage m) \<Longrightarrow>
   \<exists>m'. saveToStorage m = Inr m' \<and> history m' = history m
      \<and> maxHistorySize m' = maxHistorySize m
      \<and> storage m' = (storage m)\<lparr> item := Some (JsonArray (map ElemItem (take 50 (history m)))) \<rparr>"
  by (simp add: saveToStorage_def saveToStorage_try_def Let_def slice0_def)

lemma add_history:
  "\<exists>m'. add q t r x e m = Inr m' \<and> maxHistorySize m' = maxHistorySize m
      \<and> history m' = afterAdd (newItem q t r x e) (filterNow e) (maxHistorySize m) (history m)"
proof -
  have "add q t r x e m = saveToStorage (m\<lparr> history :=
      afterAdd (newItem q t r x e) (filterNow e) (maxHistorySize m) (history m) \<rparr>)"
    unfolding add_def afterAdd_def Let_def by (rule refl)
  with saveToStorage_keeps [of "m\<lparr> history :=
      afterAdd (newItem q t r x e) (filterNow e) (maxHistorySize m) (history m) \<rparr>"]
  show ?thesis by auto
qed

lemma afterAdd_length: "0 \<le> k \<Longrightarrow> int (length (afterAdd it now k hs)) \<le> k"
  by (auto simp: afterAdd_def slice0_def Let_def)

lemma afterAdd_fresh:
  "0 \<le> k \<Longrightarrow> query it \<notin> query ` set hs \<Longrightarrow> afterAdd it now k hs = take (nat k) (it # hs)"
proof -
  assume k: "0 \<le> k" and f: "query it \<notin> query ` set hs"
  then have "filter (\<lambda>h. query h \<noteq> query it \<or> now - timestamp h > 60000) hs = hs"
    by (intro filter_True ballI disjI1) (metis imageI)
  with k show ?thesis
    by (auto simp: afterAdd_def slice0_def Let_def)
qed

lemma filterStored_items:
  "filterStored h (map ElemItem xs) = Inr (filter (\<lambda>i. timestamp i > h) xs)"
  by (induction xs) auto

lemma filterStored_null:
  "ElemNull \<in> set es \<Longrightarrow> filterStored h es = Inl TypeError"
  by (induction h es rule: filterStored.induct) auto

lemma take_append_take: "take n (xs @ take n ys) = take n (xs @ ys)"
  by (simp add: min_def)

lemma addAll_bounded:
  "0 \<le> maxHistorySize m \<Longrightarrow> int (length (history m)) \<le> maxHistorySize m \<Longrightarrow>
   \<exists>m'. addAll cs m = Inr m' \<and> maxHistorySize m' = maxHistorySize m
      \<and> int (length (history m')) \<le> maxHistorySize m"
proof (induction cs arbitrary: m)
  case Nil
  then show ?case by simp
next
  case (Cons c cs)
  obtain m1 where m1: "addOne c m = Inr m1" "maxHistorySize m1 = maxHistorySize m"
    "history m1 = afterAdd (newItem (call_query c) (call_time c) (call_result c) (call_error c) (call_env c))
        (filterNow (call_env c)) (maxHistorySize m) (history m)"
    unfolding addOne_def using add_history by blast
  from Cons.prems m1 have "int (length (history m1)) \<le> maxHistorySize m1"
    by (simp add: afterAdd_length)
  with Cons.IH [of m1] Cons.prems m1 show ?case by simp
qed

lemma addAll_distinct:
  "0 \<le> maxHistorySize m \<Longrightarrow> int (length (history m)) \<le> maxHistorySize m \<Longrightarrow>
   distinct (map callQuery cs) \<Longrightarrow>
   set (map query (history m)) \<inter> set (map callQuery cs) = {} \<Longrightarrow>
   \<exists>m'. addAll cs m = Inr m'
      \<and> map query (history m')
          = take (nat (maxHistorySize m)) (rev (map callQuery cs) @ map query (history m))"
proof (induction cs arbitrary: m)
  case Nil
  then show ?case by simp
next
  case (Cons c cs)
  let ?it = "newItem (call_query c) (call_time c) (call_result c) (call_error c) (call_env c)"
  obtain m1 where m1: "addOne c m = Inr m1" "maxHistorySize m1 = maxHistorySize m"
    "history m1 = afterAdd ?it (filterNow (call_env c)) (maxHistorySize m) (history m)"
    unfolding addOne_def using add_history by blast
  have q: "query ?it = callQuery c"
    by (simp add: newItem_def callQuery_def)
  from Cons.prems have fresh: "query ?it \<notin> query ` set (history m)"
    unfolding q by auto
  from Cons.prems(1) fresh have h1: "history m1 = take (nat (maxHistorySize m)) (?it # history m)"
    unfolding m1(3) by (rule afterAdd_fresh)
  have len: "int (length (history m1)) \<le> maxHistorySize m1"
    using Cons.prems(1) m1 by (simp add: afterAdd_length)
  have sub: "set (map query (history m1)) \<subseteq> insert (callQuery c) (set (map query (history m)))"
    unfolding h1 using q by (auto dest!: in_set_takeD)
  from Cons.prems have "insert (callQuery c) (set (map query (history m))) \<inter> set (map callQuery cs) = {}"
    by auto
  with sub have disj: "set (map query (history m1)) \<inter> set (map callQuery cs) = {}"
    by blast
  from Cons.prems have d: "distinct (map callQuery cs)" by simp
  from Cons.IH [OF _ len d disj] Cons.prems(1) m1
  obtain m' where m': "addAll cs m1 = Inr m'"
    "map query (history m') = take (nat (maxHistorySize m)) (rev (map callQuery cs) @ map query (history m1))"
    by auto
  have "map query (history m1) = take (nat (maxHistorySize m)) (callQuery c # map query (history m))"
    unfolding h1 by (simp only: take_map [symmetric] list.map q)
  with m' have "map query (history m')
      = take (nat (maxHistorySize m)) (rev (map callQuery cs) @ callQuery c # map query (history m))"
    by (simp only: take_append_take)
  with m1 m' show ?case by simp
qed

lemma tl_afterAdd_subset:
  "set (tl (afterAdd it now k hs))
     \<subseteq> set (filter (\<lambda>h. query h \<noteq> query it \<or> now - timestamp h > 60000) hs)"
proof -
  let ?h1 = "filter (\<lambda>h. query h \<noteq> query it \<or> now - timestamp h > 60000) hs"
  have "afterAdd it now k hs = take (length (it # ?h1)) (it # ?h1)
      \<or> afterAdd it now k hs = take (nat k) (it # ?h1)
      \<or> afterAdd it now k hs = take (nat (int (length (it # ?h1)) + k)) (it # ?h1)"
    unfolding afterAdd_def slice0_def Let_def by simp
  then obtain n where n: "afterAdd it now k hs = take n (it # ?h1)" by blast
  show ?thesis
    unfolding n by (cases n) (auto dest: in_set_takeD)
qed

lemma afterAdd_prefix:
  "prefix (afterAdd it now k hs)
     (it # filter (\<lambda>h. query h \<noteq> query it \<or> now - timestamp h > 60000) hs)"
proof -
  let ?h2 = "it # filter (\<lambda>h. query h \<noteq> query it \<or> now - timestamp h > 60000) hs"
  have "afterAdd it now k hs = take (length ?h2) ?h2
      \<or> afterAdd it now k hs = take (nat k) ?h2
      \<or> afterAdd it now k hs = take (nat (int (length ?h2) + k)) ?h2"
    unfolding afterAdd_def slice0_def Let_def by simp
  then obtain n where "afterAdd it now k hs = take n ?h2" by blast
  then show ?thesis by (simp only: take_is_prefix)
qed

lemma afterAdd_hd:
  assumes "1 \<le> k"
  shows "hd (afterAdd it now k hs) = it"
proof -
  from assms obtain n where n: "nat k = Suc n"
    by (cases "nat k") auto
  from assms have "\<not> k < 0" by simp
  then show ?thesis
    unfolding afterAdd_def slice0_def Let_def by (simp add: n)
qed

lemma afterAdd_single:
  "1 \<le> k \<Longrightarrow> afterAdd it now k [] = [it]"
  by (simp add: afterAdd_def Let_def)

text \<open>
  Trimming: \<open>trim q\<close> is \<open>q\<close> without its leading and trailing white space, and
  it is the only such text.
\<close>

lemma dropWhile_all: "list_all P xs \<Longrightarrow> dropWhile P xs = []"
  by (induction xs) simp_all

lemma strippedOf_trim: "strippedOf q (trim q)"
proof -
  let ?l = "takeWhile isSpaceChar q"
  let ?m = "dropWhile isSpaceChar q"
  let ?r = "rev (takeWhile isSpaceChar (rev ?m))"
  have t: "trim q = rev (dropWhile isSpaceChar (rev ?m))"
    by (simp add: trim_def)
  have "rev (takeWhile isSpaceChar (rev ?m) @ dropWhile isSpaceChar (rev ?m)) = ?m"
    by (simp only: takeWhile_dropWhile_id rev_rev_ident)
  then have m: "?m = trim q @ ?r"
    by (simp only: t rev_append)
  have "q = ?l @ ?m" by simp
  with m have d: "q = ?l @ trim q @ ?r" by simp
  have sl: "list_all isSpaceChar ?l" and sr: "list_all isSpaceChar ?r"
    by (auto simp: list_all_iff dest: set_takeWhileD)
  have e: "trim q = [] \<or> (\<not> isSpaceChar (hd (trim q)) \<and> \<not> isSpaceChar (last (trim q)))"
  proof (cases "trim q = []")
    case True
    then show ?thesis by simp
  next
    case False
    then have n: "dropWhile isSpaceChar (rev ?m) \<noteq> []"
      by (simp add: t)
    then have "\<not> isSpaceChar (hd (dropWhile isSpaceChar (rev ?m)))"
      by (rule hd_dropWhile)
    then have la: "\<not> isSpaceChar (last (trim q))"
      by (simp add: t last_rev)
    from n have mn: "?m \<noteq> []" by (metis dropWhile.simps(1) rev.simps(1))
    then have "\<not> isSpaceChar (hd ?m)" by (rule hd_dropWhile)
    with m False have "\<not> isSpaceChar (hd (trim q))"
      by (metis hd_append2)
    with la show ?thesis by simp
  qed
  show ?thesis
    unfolding strippedOf_def
    by (rule exI [of _ ?l], rule exI [of _ ?r]) (intro conjI d sl sr e)
qed

lemma strippedOf_unique:
  assumes "strippedOf q s"
  shows "s = trim q"
proof -
  from assms obtain l r where d: "q = l @ s @ r"
    and l: "list_all isSpaceChar l" and r: "list_all isSpaceChar r"
    and e: "s = [] \<or> (\<not> isSpaceChar (hd s) \<and> \<not> isSpaceChar (last s))"
    unfolding strippedOf_def by blast
  show ?thesis
  proof (cases "s = []")
    case True
    with d l r have "list_all isSpaceChar q" by simp
    then have dq: "dropWhile isSpaceChar q = []"
      by (rule dropWhile_all)
    show ?thesis unfolding trim_def dq True by simp
  next
    case False
    with e have h: "\<not> isSpaceChar (hd s)" and la: "\<not> isSpaceChar (last s)" by simp_all
    from False h have "dropWhile isSpaceChar (s @ r) = s @ r"
      by (cases s) simp_all
    moreover have "dropWhile isSpaceChar (l @ s @ r) = dropWhile isSpaceChar (s @ r)"
      using l by (intro dropWhile_append2) (simp add: list_all_iff)
    ultimately have a: "dropWhile isSpaceChar q = s @ r"
      unfolding d by simp
    from False la have "dropWhile isSpaceChar (rev s) = rev s"
      by (cases "rev s") (simp_all add: last_rev [symmetric] hd_rev)
    moreover have "dropWhile isSpaceChar (rev r @ rev s) = dropWhile isSpaceChar (rev s)"
      using r by (intro dropWhile_append2) (simp add: list_all_iff)
    ultimately have "dropWhile isSpaceChar (rev r @ rev s) = rev s"
      by simp
    with a show ?thesis
      by (simp add: trim_def)
  qed
qed

text \<open>
  Claim C5, as stated, has two identical calls within 60 seconds leave exactly one
  entry. The list is cut to the maximum size after the new entry is put in front:
  with the maximum size 0 the two calls leave no entry.
\<close>

theorem add_twice_counterexample:
  "addAll [callAt (js ''SELECT 1'') 1000, callAt (js ''SELECT 1'') 31000] (emptyManager 0)
     = Inr (emptyManager 0 \<lparr> storage := workingStorage \<lparr> item := Some (JsonArray []) \<rparr> \<rparr>)
   \<and> length (getAll (emptyManager 0 \<lparr> storage := workingStorage \<lparr> item := Some (JsonArray []) \<rparr> \<rparr>))
       \<noteq> 1"
  by code_simp

text \<open>
  Claim C5, amended. \<open>add\<close> returns normally. The text \<open>trim q\<close> is \<open>q\<close> without
  its leading and trailing white space. When the maximum size is at least 1, the new
  entry is the head of the list and holds that text, and every entry that was in the
  list with that text and an age below 60 seconds (60000 ms) is gone from the entries
  behind the head, for every maximum size. So, on a log that was empty and with a
  maximum size of at least 1, a second \<open>add\<close> with the same trimmed text less than
  60 seconds after the first leaves exactly the newer entry, and \<open>getAll\<close> has
  length 1; with a maximum size of at least 2, a second \<open>add\<close> more than 60 seconds
  after the first keeps both entries, the newer one first.
\<close>

theorem add_removes_recent_duplicates:
  "\<exists>m1. add q t r x e m = Inr m1
     \<and> strippedOf q (trim q) \<and> (\<forall>s. strippedOf q s \<longrightarrow> s = trim q)
     \<and> (1 \<le> maxHistorySize m \<longrightarrow>
          query (hd (getAll m1)) = Some (trim q) \<and> timestamp (hd (getAll m1)) = stamp e
          \<and> executionTime (hd (getAll m1)) = Some t
          \<and> result (hd (getAll m1)) = r \<and> error (hd (getAll m1)) = x)
     \<and> (\<forall>h \<in> set (history m).
           query h = Some (trim q) \<and> filterNow e - timestamp h < 60000
             \<longrightarrow> h \<notin> set (tl (history m1)))
     \<and> (history m = [] \<and> 1 \<le> maxHistorySize m \<longrightarrow>
          (\<forall>q' t' r' x' e'. trim q' = trim q \<and> filterNow e' - stamp e < 60000 \<longrightarrow>
             (\<exists>m2. add q' t' r' x' e' m1 = Inr m2
                 \<and> getAll m2 = [newItem q' t' r' x' e'] \<and> length (getAll m2) = 1)))
     \<and> (history m = [] \<and> 2 \<le> maxHistorySize m \<longrightarrow>
          (\<forall>q' t' r' x' e'. trim q' = trim q \<and> filterNow e' - stamp e > 60000 \<longrightarrow>
             (\<exists>m2. add q' t' r' x' e' m1 = Inr m2
                 \<and> getAll m2 = [newItem q' t' r' x' e', newItem q t r x e])))"
proof -
  obtain m1 where m1: "add q t r x e m = Inr m1" "maxHistorySize m1 = maxHistorySize m"
    "history m1 = afterAdd (newItem q t r x e) (filterNow e) (maxHistorySize m) (history m)"
    using add_history by blast
  have a: "query (newItem q t r x e) = Some (trim q)"
    by (simp add: newItem_def)
  have s: "\<forall>s. strippedOf q s \<longrightarrow> s = trim q"
    using strippedOf_unique by blast
  have b: "1 \<le> maxHistorySize m \<longrightarrow>
          query (hd (getAll m1)) = Some (trim q) \<and> timestamp (hd (getAll m1)) = stamp e
          \<and> executionTime (hd (getAll m1)) = Some t
          \<and> result (hd (getAll m1)) = r \<and> error (hd (getAll m1)) = x"
    unfolding getAll_def m1(3) by (simp add: afterAdd_hd newItem_def)
  have c: "\<forall>h \<in> set (history m).
           query h = Some (trim q) \<and> filterNow e - timestamp h < 60000
             \<longrightarrow> h \<notin> set (tl (history m1))"
    unfolding m1(3) using tl_afterAdd_subset [of "newItem q t r x e" "filterNow e" "maxHistorySize m" "history m"]
    by (auto simp: a)
  have d: "\<exists>m2. add q' t' r' x' e' m1 = Inr m2
                 \<and> getAll m2 = [newItem q' t' r' x' e'] \<and> length (getAll m2) = 1"
    if "history m = []" "1 \<le> maxHistorySize m" "trim q' = trim q" "filterNow e' - stamp e < 60000"
    for q' t' r' x' e'
  proof -
    from that have h1: "history m1 = [newItem q t r x e]"
      unfolding m1(3) by (simp add: afterAdd_single)
    obtain m2 where m2: "add q' t' r' x' e' m1 = Inr m2"
      "history m2 = afterAdd (newItem q' t' r' x' e') (filterNow e') (maxHistorySize m1) (history m1)"
      using add_history by blast
    from that have hm2: "history m2 = [newItem q' t' r' x' e']"
      unfolding m2(2) h1 m1(2) by (simp add: afterAdd_def Let_def newItem_def)
    show ?thesis using m2(1) hm2 by (simp add: getAll_def)
  qed
  have f: "\<exists>m2. add q' t' r' x' e' m1 = Inr m2
                 \<and> getAll m2 = [newItem q' t' r' x' e', newItem q t r x e]"
    if "history m = []" "2 \<le> maxHistorySize m" "trim q' = trim q" "filterNow e' - stamp e > 60000"
    for q' t' r' x' e'
  proof -
    from that have h1: "history m1 = [newItem q t r x e]"
      unfolding m1(3) by (simp add: afterAdd_single)
    obtain m2 where m2: "add q' t' r' x' e' m1 = Inr m2"
      "history m2 = afterAdd (newItem q' t' r' x' e') (filterNow e') (maxHistorySize m1) (history m1)"
      using add_history by blast
    from that have hm2: "history m2 = [newItem q' t' r' x' e', newItem q t r x e]"
      unfolding m2(2) h1 m1(2) by (simp add: afterAdd_def Let_def newItem_def)
    show ?thesis using m2(1) hm2 by (simp add: getAll_def)
  qed
  show ?thesis
    apply (rule exI [of _ m1])
    apply (intro conjI)
          apply (rule m1(1))
         apply (rule strippedOf_trim)
        apply (rule s)
       apply (rule b)
      apply (rule c)
     using d apply blast
    using f apply blast
    done
qed

theorem add_removes_recent_duplicates_witness:
  "trim (Latin1 (CHR 0xA0) # js '' SELECT 1 '') = js ''SELECT 1''
   \<and> (\<exists>m1 m2. add (js ''SELECT 1'') 1 None None (envAt (js ''1'') 1000) (emptyManager 1) = Inr m1
      \<and> add (Latin1 (CHR 0xA0) # js '' SELECT 1 '') 1 None None (envAt (js ''2'') 31000) m1 = Inr m2
      \<and> getAll m2 = [newItem (Latin1 (CHR 0xA0) # js '' SELECT 1 '') 1 None None (envAt (js ''2'') 31000)]
      \<and> length (getAll m2) = 1)"
proof -
  have t1: "trim (Latin1 (CHR 0xA0) # js '' SELECT 1 '') = js ''SELECT 1''"
    by code_simp
  have t2: "trim (js ''SELECT 1'') = js ''SELECT 1''"
    by code_simp
  have h: "history (emptyManager 1) = [] \<and> 1 \<le> maxHistorySize (emptyManager 1)"
    by (simp add: emptyManager_def)
  have w: "filterNow (envAt (js ''2'') 31000) - stamp (envAt (js ''1'') 1000) < 60000"
    by (simp add: envAt_def)
  from add_removes_recent_duplicates
    [of "js ''SELECT 1''" 1 None None "envAt (js ''1'') 1000" "emptyManager 1"] h
  obtain m1 where m1: "add (js ''SELECT 1'') 1 None None (envAt (js ''1'') 1000) (emptyManager 1) = Inr m1"
    and two: "\<forall>q' t' r' x' e'. trim q' = trim (js ''SELECT 1'')
          \<and> filterNow e' - stamp (envAt (js ''1'') 1000) < 60000 \<longrightarrow>
             (\<exists>m2. add q' t' r' x' e' m1 = Inr m2
                 \<and> getAll m2 = [newItem q' t' r' x' e'] \<and> length (getAll m2) = 1)"
    by blast
  from t1 t2 have "trim (Latin1 (CHR 0xA0) # js '' SELECT 1 '') = trim (js ''SELECT 1'')"
    by simp
  with two w have "\<exists>m2. add (Latin1 (CHR 0xA0) # js '' SELECT 1 '') 1 None None (envAt (js ''2'') 31000) m1 = Inr m2
      \<and> getAll m2 = [newItem (Latin1 (CHR 0xA0) # js '' SELECT 1 '') 1 None None (envAt (js ''2'') 31000)]
      \<and> length (getAll m2) = 1"
    by blast
  with m1 t1 show ?thesis by blast
qed

text \<open>
  Claim C6. From an empty log and a maximum size \<open>k \<ge> 0\<close>, every sequence of calls
  of \<open>add\<close> returns normally and leaves at most \<open>k\<close> entries. The entries dropped
  are at the tail: each call leaves a prefix of the new entry followed by the
  entries it kept, and when the trimmed query texts of the calls are pairwise
  different, the log holds exactly the \<open>k\<close> most recent calls, newest first.
\<close>

theorem addAll_never_exceeds_max:
  "0 \<le> maxHistorySize m \<Longrightarrow> history m = [] \<Longrightarrow>
   \<exists>m'. addAll cs m = Inr m'
      \<and> int (length (getAll m')) \<le> maxHistorySize m
      \<and> (distinct (map callQuery cs) \<longrightarrow>
           map query (getAll m') = take (nat (maxHistorySize m)) (rev (map callQuery cs)))
      \<and> (\<forall>q t r x e m0. \<exists>m1. add q t r x e m0 = Inr m1
            \<and> prefix (getAll m1)
                 (newItem q t r x e
                  # filter (\<lambda>h. query h \<noteq> Some (trim q) \<or> filterNow e - timestamp h > 60000)
                      (getAll m0)))"
proof -
  assume k: "0 \<le> maxHistorySize m" and e: "history m = []"
  from k e have l: "int (length (history m)) \<le> maxHistorySize m" by simp
  from addAll_bounded [OF k l, of cs]
  obtain m' where m': "addAll cs m = Inr m'" "int (length (history m')) \<le> maxHistorySize m"
    by blast
  have d: "map query (history m') = take (nat (maxHistorySize m)) (rev (map callQuery cs))"
    if "distinct (map callQuery cs)"
    using addAll_distinct [OF k l that] e m'(1) by simp
  have p: "\<exists>m1. add q t r x e m0 = Inr m1
            \<and> prefix (getAll m1)
                 (newItem q t r x e
                  # filter (\<lambda>h. query h \<noteq> Some (trim q) \<or> filterNow e - timestamp h > 60000)
                      (getAll m0))" for q t r x e m0
    using add_history [of q t r x e m0]
      afterAdd_prefix [of "newItem q t r x e" "filterNow e" "maxHistorySize m0" "history m0"]
    by (auto simp: getAll_def newItem_def)
  show ?thesis
    apply (rule exI [of _ m'])
    apply (intro conjI)
       apply (rule m'(1))
      apply (simp add: getAll_def m'(2))
     apply (simp add: getAll_def d)
    using p apply blast
    done
qed

theorem addAll_never_exceeds_max_witness:
  "\<exists>m'. addAll [callAt (js ''a'') 1000, callAt (js ''b'') 2000, callAt (js ''c'') 3000] (emptyManager 2) = Inr m'
      \<and> length (getAll m') \<le> 2
      \<and> map query (getAll m') = [Some (js ''c''), Some (js ''b'')]"
proof -
  have d: "map callQuery [callAt (js ''a'') 1000, callAt (js ''b'') 2000, callAt (js ''c'') 3000] = [Some (js ''a''), Some (js ''b''), Some (js ''c'')]"
    by code_simp
  have h: "0 \<le> maxHistorySize (emptyManager 2)" "history (emptyManager 2) = []"
    "maxHistorySize (emptyManager 2) = 2"
    by (simp_all add: emptyManager_def)
  from addAll_never_exceeds_max [OF h(1,2), of "[callAt (js ''a'') 1000, callAt (js ''b'') 2000, callAt (js ''c'') 3000]"]
  obtain m' where m': "addAll [callAt (js ''a'') 1000, callAt (js ''b'') 2000, callAt (js ''c'') 3000] (emptyManager 2) = Inr m'"
    and l: "int (length (getAll m')) \<le> 2"
    and q: "distinct [Some (js ''a''), Some (js ''b''), Some (js ''c'')] \<longrightarrow>
        map query (getAll m') = take (nat 2) (rev [Some (js ''a''), Some (js ''b''), Some (js ''c'')])"
    unfolding d h(3) by blast
  from l have l': "length (getAll m') \<le> 2" by simp
  from q have q': "map query (getAll m') = [Some (js ''c''), Some (js ''b'')]"
    by (simp add: js_def)
  show ?thesis
    by (rule exI [of _ m']) (intro conjI m' l' q')
qed

lemma construct_loaded:
  "access st = Present \<Longrightarrow> \<not> getItemThrows st \<Longrightarrow> item st = Some (JsonArray (map ElemItem xs)) \<Longrightarrow>
   \<exists>m. construct k st now = Inr m \<and> maxHistorySize m = k
      \<and> history m = filter (\<lambda>h. timestamp h > now - 30 * 24 * 60 * 60 * 1000) xs"
  by (simp add: construct_def loadFromStorage_def loadFromStorage_try_def filterStored_items Let_def)

lemma construct_total:
  "\<exists>m. construct k st now = Inr m"
  by (simp add: construct_def loadFromStorage_def split: sum.splits)

lemma construct_failed_empty:
  "access st \<noteq> Present \<or> getItemThrows st \<or> item st = None \<or> item st = Some EmptyText
     \<or> item st = Some Unparseable \<or> item st = Some NotArray
     \<or> (\<exists>es. item st = Some (JsonArray es) \<and> ElemNull \<in> set es) \<Longrightarrow>
   construct k st now = Inr m \<Longrightarrow> history m = []"
  by (elim disjE exE conjE; cases "access st"; cases "getItemThrows st")
     (auto simp: construct_def loadFromStorage_def loadFromStorage_try_def filterStored_null Let_def
       split: option.splits storedValue.splits sum.splits)

lemma mutation_written:
  assumes "access (storage m) = Present" "\<not> setItemThrows (storage m)"
    and "f = add q t r x e \<or> f = clear \<or> f = remove i"
  shows "\<exists>m1. f m = Inr m1
     \<and> storage m1 = (storage m)\<lparr> item := Some (JsonArray (map ElemItem (take 50 (history m1)))) \<rparr>"
proof -
  have "\<exists>hs. f m = saveToStorage (m\<lparr> history := hs \<rparr>)"
    using assms(3) unfolding add_def clear_def remove_def Let_def by blast
  then obtain hs where hs: "f m = saveToStorage (m\<lparr> history := hs \<rparr>)" ..
  from saveToStorage_written [of "m\<lparr> history := hs \<rparr>"] assms(1,2)
  show ?thesis unfolding hs by auto
qed

text \<open>
  Claim C7. Let a mutating operation (\<open>add\<close>, \<open>clear\<close> or \<open>remove\<close>) run on a
  manager whose storage works, and let a new manager be constructed from the storage
  it leaves, at clock reading \<open>now\<close>. The new manager's log is the newest 50 entries
  of the old log without those whose age is 30 days or more: every one of the 50
  that is younger than 30 days is there, unchanged in all its fields (query text,
  execution time, result and error), and no entry older than 30 days is there.
\<close>

theorem storage_roundtrip:
  "access (storage m) = Present \<Longrightarrow> \<not> setItemThrows (storage m) \<Longrightarrow>
   \<not> getItemThrows (storage m) \<Longrightarrow>
   f = add q t r x e \<or> f = clear \<or> f = remove i \<Longrightarrow>
   \<exists>m1 m2. f m = Inr m1 \<and> construct k (storage m1) now = Inr m2
      \<and> getAll m2 = filter (\<lambda>h. now - timestamp h < 30 * 24 * 60 * 60 * 1000)
                       (take 50 (getAll m1))
      \<and> (\<forall>h \<in> set (take 50 (getAll m1)).
            now - timestamp h < 30 * 24 * 60 * 60 * 1000 \<longrightarrow> h \<in> set (getAll m2))
      \<and> (\<forall>h. now - timestamp h > 30 * 24 * 60 * 60 * 1000 \<longrightarrow> h \<notin> set (getAll m2))"
proof -
  assume a: "access (storage m) = Present" "\<not> setItemThrows (storage m)"
    "\<not> getItemThrows (storage m)" "f = add q t r x e \<or> f = clear \<or> f = remove i"
  from mutation_written [OF a(1,2,4)]
  obtain m1 where m1: "f m = Inr m1"
    "storage m1 = (storage m)\<lparr> item := Some (JsonArray (map ElemItem (take 50 (history m1)))) \<rparr>"
    by blast
  from a m1(2) have s: "access (storage m1) = Present" "\<not> getItemThrows (storage m1)"
    "item (storage m1) = Some (JsonArray (map ElemItem (take 50 (history m1))))"
    by simp_all
  from construct_loaded [OF s, of k now]
  obtain m2 where m2: "construct k (storage m1) now = Inr m2"
    "history m2 = filter (\<lambda>h. timestamp h > now - 30 * 24 * 60 * 60 * 1000) (take 50 (history m1))"
    by blast
  have eq: "(\<lambda>h. timestamp h > now - 30 * 24 * 60 * 60 * 1000)
      = (\<lambda>h. now - timestamp h < 30 * 24 * 60 * 60 * 1000)"
    by (rule ext) arith
  have g: "getAll m2 = filter (\<lambda>h. now - timestamp h < 30 * 24 * 60 * 60 * 1000)
                       (take 50 (getAll m1))"
    using m2(2) unfolding eq getAll_def .
  show ?thesis
    apply (rule exI [of _ m1], rule exI [of _ m2])
    apply (intro conjI)
        apply (rule m1(1))
       apply (rule m2(1))
      apply (rule g)
     apply (simp add: g)
    apply (simp add: g)
    done
qed

theorem storage_roundtrip_witness:
  "\<exists>m1 m2. add (js ''SELECT 1'') 1 None None (envAt (js ''1'') 1000) (emptyManager 100) = Inr m1
      \<and> construct 100 (storage m1) 5000 = Inr m2
      \<and> getAll m2 = [newItem (js ''SELECT 1'') 1 None None (envAt (js ''1'') 1000)]"
proof -
  have s: "access (storage (emptyManager 100)) = Present"
    "\<not> setItemThrows (storage (emptyManager 100))"
    "\<not> getItemThrows (storage (emptyManager 100))"
    by (simp_all add: emptyManager_def workingStorage_def)
  have f: "add (js ''SELECT 1'') 1 None None (envAt (js ''1'') 1000) = add (js ''SELECT 1'') 1 None None (envAt (js ''1'') 1000)
      \<or> add (js ''SELECT 1'') 1 None None (envAt (js ''1'') 1000) = clear
      \<or> add (js ''SELECT 1'') 1 None None (envAt (js ''1'') 1000) = remove []"
    by simp
  from storage_roundtrip [OF s f, of 100 5000]
  obtain m1 m2 where m: "add (js ''SELECT 1'') 1 None None (envAt (js ''1'') 1000) (emptyManager 100) = Inr m1"
    "construct 100 (storage m1) 5000 = Inr m2"
    "getAll m2 = filter (\<lambda>h. 5000 - timestamp h < 30 * 24 * 60 * 60 * 1000) (take 50 (getAll m1))"
    by blast
  from add_history [of "(js ''SELECT 1'')" 1 None None "envAt (js ''1'') 1000" "emptyManager 100"] m(1)
  have "getAll m1 = [newItem (js ''SELECT 1'') 1 None None (envAt (js ''1'') 1000)]"
    by (auto simp: getAll_def emptyManager_def afterAdd_single)
  with m have "getAll m2 = [newItem (js ''SELECT 1'') 1 None None (envAt (js ''1'') 1000)]"
    by (simp add: newItem_def envAt_def)
  with m show ?thesis by blast
qed

text \<open>
  Claim C8. The constructor, \<open>add\<close>, \<open>clear\<close> and \<open>remove\<close> return normally
  whatever the state of the storage. When the storage is missing, may not be
  accessed, throws on reading, holds nothing or the empty text, holds text that does
  not parse, holds a value that is not an array or an array with a \<open>null\<close> element,
  the constructed log is empty. The list that \<open>add\<close>, \<open>clear\<close> and \<open>remove\<close> leave
  in memory does not depend on the storage, so it is the same whether writing
  succeeds or fails.
\<close>

theorem storage_failures_not_propagated:
  "(\<exists>m0. construct k st now = Inr m0
      \<and> (access st \<noteq> Present \<or> getItemThrows st \<or> item st = None
            \<or> item st = Some EmptyText \<or> item st = Some Unparseable
            \<or> item st = Some NotArray
            \<or> (\<exists>es. item st = Some (JsonArray es) \<and> ElemNull \<in> set es)
          \<longrightarrow> getAll m0 = []))
   \<and> (\<exists>m1. add q t r x e m = Inr m1
      \<and> (\<forall>st'. \<exists>m1'. add q t r x e (m\<lparr> storage := st' \<rparr>) = Inr m1'
                     \<and> getAll m1' = getAll m1))
   \<and> (\<exists>m2. clear m = Inr m2 \<and> getAll m2 = [])
   \<and> (\<exists>m3. remove i m = Inr m3 \<and> getAll m3 = filter (\<lambda>h. item_id h \<noteq> Some i) (history m))"
proof (intro conjI)
  obtain m0 where m0: "construct k st now = Inr m0"
    using construct_total by blast
  with construct_failed_empty [of st k now m0]
  show "\<exists>m0. construct k st now = Inr m0
      \<and> (access st \<noteq> Present \<or> getItemThrows st \<or> item st = None
            \<or> item st = Some EmptyText \<or> item st = Some Unparseable
            \<or> item st = Some NotArray
            \<or> (\<exists>es. item st = Some (JsonArray es) \<and> ElemNull \<in> set es)
          \<longrightarrow> getAll m0 = [])"
    unfolding getAll_def by blast
next
  obtain m1 where m1: "add q t r x e m = Inr m1"
    "history m1 = afterAdd (newItem q t r x e) (filterNow e) (maxHistorySize m) (history m)"
    using add_history by blast
  have "\<exists>m1'. add q t r x e (m\<lparr> storage := st' \<rparr>) = Inr m1' \<and> getAll m1' = getAll m1" for st'
    using add_history [of q t r x e "m\<lparr> storage := st' \<rparr>"] m1(2)
    by (auto simp: getAll_def)
  with m1(1) show "\<exists>m1. add q t r x e m = Inr m1
      \<and> (\<forall>st'. \<exists>m1'. add q t r x e (m\<lparr> storage := st' \<rparr>) = Inr m1'
                     \<and> getAll m1' = getAll m1)"
    by blast
next
  show "\<exists>m2. clear m = Inr m2 \<and> getAll m2 = []"
    using saveToStorage_keeps [of "m\<lparr> history := [] \<rparr>"]
    by (auto simp: clear_def getAll_def)
next
  show "\<exists>m3. remove i m = Inr m3 \<and> getAll m3 = filter (\<lambda>h. item_id h \<noteq> Some i) (history m)"
    using saveToStorage_keeps [of "m\<lparr> history := filter (\<lambda>h. item_id h \<noteq> Some i) (history m) \<rparr>"]
    by (auto simp: remove_def getAll_def)
qed

theorem storage_failures_not_propagated_witness:
  "(\<exists>m0. construct 100 deniedStorage 5000 = Inr m0 \<and> getAll m0 = [])
   \<and> (\<exists>m1. add (js ''SELECT 1'') 1 None None (envAt (js ''1'') 1000)
              \<lparr> history = [], maxHistorySize = 100, storage = deniedStorage \<rparr> = Inr m1
          \<and> getAll m1 = [newItem (js ''SELECT 1'') 1 None None (envAt (js ''1'') 1000)])"
proof -
  have a: "access deniedStorage \<noteq> Present"
    by (simp add: deniedStorage_def)
  have w: "\<exists>m1'. add (js ''SELECT 1'') 1 None None (envAt (js ''1'') 1000)
       (\<lparr> history = [], maxHistorySize = 100, storage = deniedStorage \<rparr>\<lparr> storage := workingStorage \<rparr>) = Inr m1'
       \<and> getAll m1' = [newItem (js ''SELECT 1'') 1 None None (envAt (js ''1'') 1000)]"
    using add_history [of "(js ''SELECT 1'')" 1 None None "envAt (js ''1'') 1000" "emptyManager 100"]
    by (auto simp: getAll_def emptyManager_def afterAdd_single)
  from storage_failures_not_propagated [of 100 deniedStorage 5000 "(js ''SELECT 1'')" 1 None None
      "envAt (js ''1'') 1000" "\<lparr> history = [], maxHistorySize = 100, storage = deniedStorage \<rparr>" "[]"]
  have c: "\<exists>m0. construct 100 deniedStorage 5000 = Inr m0 \<and> getAll m0 = []"
    and d: "\<exists>m1. add (js ''SELECT 1'') 1 None None (envAt (js ''1'') 1000)
              \<lparr> history = [], maxHistorySize = 100, storage = deniedStorage \<rparr> = Inr m1
      \<and> (\<forall>st'. \<exists>m1'. add (js ''SELECT 1'') 1 None None (envAt (js ''1'') 1000)
            (\<lparr> history = [], maxHistorySize = 100, storage = deniedStorage \<rparr>\<lparr> storage := st' \<rparr>) = Inr m1'
                     \<and> getAll m1' = getAll m1)"
    using a by blast+
  from d w have "\<exists>m1. add (js ''SELECT 1'') 1 None None (envAt (js ''1'') 1000)
              \<lparr> history = [], maxHistorySize = 100, storage = deniedStorage \<rparr> = Inr m1
          \<and> getAll m1 = [newItem (js ''SELECT 1'') 1 None None (envAt (js ''1'') 1000)]"
    by (metis sum.inject(2))
  with c show ?thesis by blast
qed

text \<open>
  Claim C10. When a working storage holds more entries younger than 30 days than
  the maximum size \<open>k\<close> given to the constructor, the constructed manager holds all
  of them, more than \<open>k\<close>; after the next call of \<open>add\<close> the log has at most \<open>k\<close>
  entries.
\<close>

theorem construct_ignores_max:
  "access st = Present \<Longrightarrow> \<not> getItemThrows st \<Longrightarrow>
   item st = Some (JsonArray (map ElemItem xs)) \<Longrightarrow>
   \<forall>h \<in> set xs. now - timestamp h < 30 * 24 * 60 * 60 * 1000 \<Longrightarrow>
   0 \<le> k \<Longrightarrow> k < int (length xs) \<Longrightarrow>
   \<exists>m. construct k st now = Inr m \<and> getAll m = xs \<and> int (length (getAll m)) > k
      \<and> (\<forall>q t r x e. \<exists>m'. add q t r x e m = Inr m' \<and> int (length (getAll m')) \<le> k)"
proof -
  assume a: "access st = Present" "\<not> getItemThrows st"
    "item st = Some (JsonArray (map ElemItem xs))"
    and fresh: "\<forall>h \<in> set xs. now - timestamp h < 30 * 24 * 60 * 60 * 1000"
    and k: "0 \<le> k" "k < int (length xs)"
  from construct_loaded [OF a, of k now]
  obtain m where m: "construct k st now = Inr m" "maxHistorySize m = k"
    "history m = filter (\<lambda>h. timestamp h > now - 30 * 24 * 60 * 60 * 1000) xs"
    by blast
  from fresh have "filter (\<lambda>h. timestamp h > now - 30 * 24 * 60 * 60 * 1000) xs = xs"
    by (intro filter_True) auto
  with m have h: "history m = xs" by simp
  have "\<exists>m'. add q t r x e m = Inr m' \<and> int (length (getAll m')) \<le> k" for q t r x e
    using add_history [of q t r x e m] afterAdd_length [OF k(1)] m(2)
    by (auto simp: getAll_def)
  with m(1) h k show ?thesis
    by (auto simp: getAll_def)
qed

theorem construct_ignores_max_witness:
  "\<exists>m. construct 2 threeStored 5000 = Inr m \<and> length (getAll m) = 3
      \<and> (\<exists>m'. add (js ''d'') 1 None None (envAt (js ''d'') 5000) m = Inr m' \<and> length (getAll m') \<le> 2)"
proof -
  have s: "access threeStored = Present" "\<not> getItemThrows threeStored"
    "item threeStored = Some (JsonArray (map ElemItem
      [storedItem (js ''c'') 3000, storedItem (js ''b'') 2000, storedItem (js ''a'') 1000]))"
    by (simp_all add: threeStored_def workingStorage_def)
  have f: "\<forall>h \<in> set [storedItem (js ''c'') 3000, storedItem (js ''b'') 2000, storedItem (js ''a'') 1000].
      5000 - timestamp h < 30 * 24 * 60 * 60 * 1000"
    by (simp add: storedItem_def)
  have k: "(0::int) \<le> 2" "2 < int (length [storedItem (js ''c'') 3000, storedItem (js ''b'') 2000, storedItem (js ''a'') 1000])"
    by simp_all
  from construct_ignores_max [OF s f k]
  obtain m where m: "construct 2 threeStored 5000 = Inr m"
    "getAll m = [storedItem (js ''c'') 3000, storedItem (js ''b'') 2000, storedItem (js ''a'') 1000]"
    "\<forall>q t r x e. \<exists>m'. add q t r x e m = Inr m' \<and> int (length (getAll m')) \<le> 2"
    by blast
  from m(3) have "\<exists>m'. add (js ''d'') 1 None None (envAt (js ''d'') 5000) m = Inr m' \<and> length (getAll m') \<le> 2"
    by (metis nat_int_comparison(3) of_nat_numeral)
  with m(1,2) show ?thesis by auto
qed

text \<open>
  An object in storage that has only a \<open>timestamp\<close>, given as the text
  \<open>9999999999999\<close>, passes the filter of \<open>loadFromStorage\<close> and enters the log as
  it is; a value without a numeric \<open>timestamp\<close> is dropped.
\<close>

lemma construct_keeps_timestampOnly:
  "construct 100
     (workingStorage \<lparr> item := Some (JsonArray [ElemItem timestampOnly, ElemOther]) \<rparr>) 5000
   = Inr \<lparr> history = [timestampOnly], maxHistorySize = 100,
           storage = workingStorage
             \<lparr> item := Some (JsonArray [ElemItem timestampOnly, ElemOther]) \<rparr> \<rparr>"
  by code_simp

end
